theory Spec2Isabelle
  imports Complex_Main "HOL-Library.AList" "HOL-Library.Char_ord" "HOL-Library.List_Lexorder"
    "HOL-Library.Multiset"
begin

section \<open>Workout Performance Analyzer (week1/workout_analyzer/workout_analyzer.py)\<close>

text \<open>
  A shallow embedding of the module \<^verbatim>\<open>workout_analyzer.py\<close>.

  \<^item> Python \<^verbatim>\<open>str\<close> is \<open>string\<close>: the list of the bytes of its UTF-8 encoding. Python
    compares strings code point by code point, which is the lexicographic order of the
    UTF-8 bytes, here the order of \<open>char list\<close> (\<open>List_Lexorder\<close> over \<open>Char_ord\<close>).
  \<^item> Python \<^verbatim>\<open>int\<close> is \<open>int\<close>. Python \<^verbatim>\<open>float\<close> is idealised as \<open>real\<close>: sums, products,
    quotients and comparisons are exact, there is no rounding and no NaN. Python compares
    \<^verbatim>\<open>int\<close> and \<^verbatim>\<open>float\<close> by numeric value (\<^verbatim>\<open>860 == 860.0\<close>), so every number that
    reaches a result is one \<open>PNum\<close>.
  \<^item> The values of the fields of a JSON document have the types the dataclasses
    declare; a field may be absent.
  \<^item> A path names no file, a file that is not JSON, or a JSON document; other failures of
    \<^verbatim>\<open>open\<close> and \<^verbatim>\<open>json.load\<close> are not modelled.
\<close>

subsection \<open>Data model\<close>

text \<open>
  \<^verbatim>\<open>WorkoutSet\<close>: the fields \<^verbatim>\<open>exercise\<close>, \<^verbatim>\<open>date\<close> and \<^verbatim>\<open>notes\<close> of a set are
  \<open>set_exercise\<close>, \<open>set_date\<close> and \<open>set_notes\<close> here: a session has fields of the first two
  names, and the third is a keyword of Isabelle.
\<close>

record WorkoutSet =
  set_exercise :: string
  reps :: int
  weight :: real
  rpe :: real
  set_date :: string
  set_notes :: string

record WorkoutSession =
  date :: string
  exercise :: string
  sets :: "WorkoutSet list"
  total_volume :: real
  duration_minutes :: int

text \<open>
  The results of the queries are Python dicts and lists of numbers and strings. A dict
  keeps its keys in insertion order: it is an association list.
\<close>

datatype pyval =
  PNum real
  | PStr string
  | PList "pyval list"
  | PDict "(string \<times> pyval) list"

text \<open>\<^verbatim>\<open>d.get(k, default)\<close> and \<^verbatim>\<open>d[k] = v\<close> (\<open>AList.update\<close>) on a dict.\<close>

definition dict_get :: "(string \<times> 'v) list \<Rightarrow> string \<Rightarrow> 'v \<Rightarrow> 'v" where
  "dict_get d k dflt = (case map_of d k of None \<Rightarrow> dflt | Some v \<Rightarrow> v)"

text \<open>The lookup \<^verbatim>\<open>k in d\<close> / \<^verbatim>\<open>d[k]\<close> of a result, \<open>None\<close> when the key is absent or the
  value is not a dict.\<close>

fun lookup :: "pyval \<Rightarrow> string \<Rightarrow> pyval option" where
  "lookup (PDict d) k = map_of d k"
| "lookup _ k = None"

subsection \<open>The store of list objects\<close>

text \<open>
  A Python list is a mutable object reached through a reference: \<^verbatim>\<open>append\<close> and
  \<^verbatim>\<open>sort\<close> change it in place, while a comprehension, \<^verbatim>\<open>sorted\<close> and a slice build a new
  list. The store maps a reference to the list it holds; \<open>fresh\<close> is the next unused
  reference. Sessions are values inside the lists: the only assignment to a field of a
  session, in \<^verbatim>\<open>add_workout\<close>, happens before the session is appended.
\<close>

type_synonym ref = nat

record heap =
  cells :: "ref \<Rightarrow> WorkoutSession list"
  fresh :: ref

definition new_list :: "WorkoutSession list \<Rightarrow> heap \<Rightarrow> ref \<times> heap" where
  "new_list xs h = (fresh h, h\<lparr>cells := (cells h)(fresh h := xs), fresh := Suc (fresh h)\<rparr>)"

definition list_append :: "ref \<Rightarrow> WorkoutSession \<Rightarrow> heap \<Rightarrow> heap" where
  "list_append r w h = h\<lparr>cells := (cells h)(r := cells h r @ [w])\<rparr>"

text \<open>\<^verbatim>\<open>xs.sort(key=lambda w: w.date)\<close>: a stable sort, in place.\<close>

definition list_sort_by_date :: "ref \<Rightarrow> heap \<Rightarrow> heap" where
  "list_sort_by_date r h = h\<lparr>cells := (cells h)(r := sort_key date (cells h r))\<rparr>"

text \<open>
  \<^verbatim>\<open>sorted(xs, key=lambda w: w.date, reverse=True)\<close>: a new list. With \<^verbatim>\<open>reverse=True\<close>
  Python reverses the list, sorts it stably in ascending order and reverses the result, so
  that sessions with equal dates keep their order.
\<close>

definition sorted_by_date_reverse :: "ref \<Rightarrow> heap \<Rightarrow> ref \<times> heap" where
  "sorted_by_date_reverse r h = new_list (rev (sort_key date (rev (cells h r)))) h"

text \<open>\<^verbatim>\<open>xs[:n]\<close> on values: a negative \<open>n\<close> counts from the end.\<close>

definition slice_to :: "'a list \<Rightarrow> int \<Rightarrow> 'a list" where
  "slice_to xs n = (if 0 \<le> n then take (nat n) xs else take (length xs - nat (- n)) xs)"

text \<open>\<^verbatim>\<open>max(iterable, default=d)\<close>.\<close>

definition max_default :: "'a::linorder list \<Rightarrow> 'a \<Rightarrow> 'a" where
  "max_default xs d = (case xs of [] \<Rightarrow> d | x # rest \<Rightarrow> foldl max x rest)"

subsection \<open>The analyzer\<close>

record WorkoutPerformanceAnalyzer =
  workouts :: ref
  data_file :: "string option"

text \<open>The truth value of an optional string argument: \<^verbatim>\<open>None\<close> and \<^verbatim>\<open>""\<close> are false.\<close>

fun truthy :: "string option \<Rightarrow> bool" where
  "truthy None = False"
| "truthy (Some s) = (s \<noteq> [])"

text \<open>\<^verbatim>\<open>sum(s.reps * s.weight for s in sets)\<close>: \<^verbatim>\<open>sum\<close> adds from the left, starting at 0.\<close>

definition calculate_total_volume :: "WorkoutSet list \<Rightarrow> real" where
  "calculate_total_volume ss = foldl (\<lambda>acc s. acc + of_int (reps s) * weight s) 0 ss"

subsubsection \<open>Ingestion\<close>

text \<open>
  A JSON document as \<^verbatim>\<open>json.load\<close> returns it: objects whose fields may be absent.
\<close>

record SetObj =
  j_set_exercise :: "string option"
  j_reps :: "int option"
  j_weight :: "real option"
  j_rpe :: "real option"
  j_set_date :: "string option"
  j_notes :: "string option"

record SessionObj =
  j_date :: "string option"
  j_exercise :: "string option"
  j_sets :: "SetObj list option"
  j_duration_minutes :: "int option"

record Document =
  j_sessions :: "SessionObj list option"

text \<open>What \<^verbatim>\<open>open(file_path)\<close> followed by \<^verbatim>\<open>json.load\<close> does at a path.\<close>

datatype file_contents = Missing | Malformed | Parsed Document

datatype exn = KeyError string

text \<open>The line \<^verbatim>\<open>load_data\<close> prints.\<close>

datatype notice = Loaded nat | FileNotFound string | InvalidJSON string

text \<open>\<^verbatim>\<open>obj[key]\<close> on a JSON object.\<close>

definition subscript :: "'a option \<Rightarrow> string \<Rightarrow> exn + 'a" where
  "subscript field key = (case field of None \<Rightarrow> Inl (KeyError key) | Some v \<Rightarrow> Inr v)"

text \<open>\<^verbatim>\<open>obj.get(key, default)\<close> on a JSON object.\<close>

definition get_or :: "'a option \<Rightarrow> 'a \<Rightarrow> 'a" where
  "get_or field dflt = (case field of None \<Rightarrow> dflt | Some v \<Rightarrow> v)"

text \<open>The call \<^verbatim>\<open>WorkoutSet(exercise=s['exercise'], ...)\<close>: the arguments are evaluated
  from left to right, the first absent key raises.\<close>

definition make_set :: "SetObj \<Rightarrow> exn + WorkoutSet" where
  "make_set s =
    (case subscript (j_set_exercise s) ''exercise'' of Inl e \<Rightarrow> Inl e | Inr ex \<Rightarrow>
    (case subscript (j_reps s) ''reps'' of Inl e \<Rightarrow> Inl e | Inr rp \<Rightarrow>
    (case subscript (j_weight s) ''weight'' of Inl e \<Rightarrow> Inl e | Inr wt \<Rightarrow>
    (case subscript (j_rpe s) ''rpe'' of Inl e \<Rightarrow> Inl e | Inr rp' \<Rightarrow>
    (case subscript (j_set_date s) ''date'' of Inl e \<Rightarrow> Inl e | Inr dt \<Rightarrow>
       Inr \<lparr>set_exercise = ex, reps = rp, weight = wt, rpe = rp', set_date = dt,
            set_notes = get_or (j_notes s) ''''\<rparr>)))))"

text \<open>The list comprehension over \<^verbatim>\<open>session.get('sets', [])\<close>.\<close>

fun make_sets :: "SetObj list \<Rightarrow> exn + WorkoutSet list" where
  "make_sets [] = Inr []"
| "make_sets (s # ss) =
    (case make_set s of Inl e \<Rightarrow> Inl e | Inr x \<Rightarrow>
    (case make_sets ss of Inl e \<Rightarrow> Inl e | Inr xs \<Rightarrow> Inr (x # xs)))"

text \<open>The body of the loop up to and with the assignment of \<^verbatim>\<open>total_volume\<close>: the sets are
  built first, then \<^verbatim>\<open>session['date']\<close> and \<^verbatim>\<open>session['exercise']\<close> are read.\<close>

definition make_session :: "SessionObj \<Rightarrow> exn + WorkoutSession" where
  "make_session session =
    (case make_sets (get_or (j_sets session) []) of Inl e \<Rightarrow> Inl e | Inr ss \<Rightarrow>
    (case subscript (j_date session) ''date'' of Inl e \<Rightarrow> Inl e | Inr d \<Rightarrow>
    (case subscript (j_exercise session) ''exercise'' of Inl e \<Rightarrow> Inl e | Inr ex \<Rightarrow>
       Inr \<lparr>date = d, exercise = ex, sets = ss, total_volume = calculate_total_volume ss,
            duration_minutes = get_or (j_duration_minutes session) 0\<rparr>)))"

text \<open>The loop \<^verbatim>\<open>for session in data.get('sessions', [])\<close>: each session is appended as
  soon as it is built, so the sessions before a failing one stay in the collection.\<close>

fun load_sessions :: "ref \<Rightarrow> SessionObj list \<Rightarrow> heap \<Rightarrow> (exn + unit) \<times> heap" where
  "load_sessions r [] h = (Inr (), h)"
| "load_sessions r (session # rest) h =
    (case make_session session of
       Inl e \<Rightarrow> (Inl e, h)
     | Inr workout \<Rightarrow> load_sessions r rest (list_append r workout h))"

text \<open>
  \<^verbatim>\<open>load_data\<close>: \<^verbatim>\<open>FileNotFoundError\<close> and \<^verbatim>\<open>json.JSONDecodeError\<close> are caught and a line
  is printed; a \<^verbatim>\<open>KeyError\<close> is neither, and reaches the caller (\<open>Inl\<close>).
\<close>

definition load_data ::
  "WorkoutPerformanceAnalyzer \<Rightarrow> string \<Rightarrow> (string \<Rightarrow> file_contents) \<Rightarrow> heap
    \<Rightarrow> (exn + notice) \<times> heap" where
  "load_data self file_path fs h =
    (case fs file_path of
       Missing \<Rightarrow> (Inr (FileNotFound file_path), h)
     | Malformed \<Rightarrow> (Inr (InvalidJSON file_path), h)
     | Parsed data \<Rightarrow>
        (case load_sessions (workouts self) (get_or (j_sessions data) []) h of
           (Inl e, h') \<Rightarrow> (Inl e, h')
         | (Inr u, h') \<Rightarrow> (Inr (Loaded (length (cells h' (workouts self)))), h')))"

text \<open>\<^verbatim>\<open>__init__\<close>: a new empty list, then \<^verbatim>\<open>load_data\<close> when \<^verbatim>\<open>data_file\<close> is true.\<close>

definition init ::
  "string option \<Rightarrow> (string \<Rightarrow> file_contents) \<Rightarrow> heap
    \<Rightarrow> (exn + WorkoutPerformanceAnalyzer) \<times> heap" where
  "init df fs h =
    (let (r, h1) = new_list [] h;
         self = \<lparr>workouts = r, data_file = df\<rparr>
     in case df of
          None \<Rightarrow> (Inr self, h1)
        | Some path \<Rightarrow>
            if truthy df
            then (case load_data self path fs h1 of
                    (Inl e, h2) \<Rightarrow> (Inl e, h2)
                  | (Inr n, h2) \<Rightarrow> (Inr self, h2))
            else (Inr self, h1))"

text \<open>\<^verbatim>\<open>add_workout\<close>: the session's \<^verbatim>\<open>total_volume\<close> is assigned, then it is appended.\<close>

definition add_workout :: "WorkoutPerformanceAnalyzer \<Rightarrow> WorkoutSession \<Rightarrow> heap \<Rightarrow> heap" where
  "add_workout self workout h =
    list_append (workouts self)
      (workout\<lparr>total_volume := calculate_total_volume (sets workout)\<rparr>) h"

subsubsection \<open>Queries\<close>

text \<open>Every query returns its result and the store it leaves.\<close>

fun personal_records_loop ::
  "string option \<Rightarrow> WorkoutSession list \<Rightarrow> (string \<times> real) list \<Rightarrow> (string \<times> real) list" where
  "personal_records_loop ex [] prs = prs"
| "personal_records_loop ex (workout # rest) prs =
    (if truthy ex \<and> Some (exercise workout) \<noteq> ex then personal_records_loop ex rest prs
     else
       let max_weight = max_default (map weight (sets workout)) 0;
           current_pr = dict_get prs (exercise workout) 0
       in personal_records_loop ex rest
            (AList.update (exercise workout) (max current_pr max_weight) prs))"

definition get_personal_records ::
  "WorkoutPerformanceAnalyzer \<Rightarrow> string option \<Rightarrow> heap \<Rightarrow> (string \<times> real) list \<times> heap" where
  "get_personal_records self ex h =
    (let prs = personal_records_loop ex (cells h (workouts self)) []
     in (case ex of
           None \<Rightarrow> prs
         | Some x \<Rightarrow> if \<not> truthy ex then prs else [(x, dict_get prs x 0)], h))"

definition calculate_progression ::
  "WorkoutPerformanceAnalyzer \<Rightarrow> string \<Rightarrow> int \<Rightarrow> heap \<Rightarrow> pyval \<times> heap" where
  "calculate_progression self ex window_days h =
    (let (exercise_workouts, h1) =
           new_list (filter (\<lambda>w. exercise w = ex) (cells h (workouts self))) h
     in if cells h1 exercise_workouts = []
        then (PDict [(''error'', PStr (''No data for '' @ ex))], h1)
        else
          let h2 = list_sort_by_date exercise_workouts h1;
              ws = cells h2 exercise_workouts
          in (PDict
               [(''exercise'', PStr ex),
                (''total_sessions'', PNum (of_nat (length ws))),
                (''date_range'',
                   PDict [(''start'', PStr (date (hd ws))), (''end'', PStr (date (last ws)))]),
                (''volume_progression'',
                   PList (map (\<lambda>w. PDict [(''date'', PStr (date w)),
                                            (''volume'', PNum (total_volume w))]) ws)),
                (''max_weight_progression'',
                   PList (map (\<lambda>w. PDict [(''date'', PStr (date w)),
                                            (''weight'',
                                               PNum (max_default (map weight (sets w)) 0))]) ws))],
              h2))"

fun volume_loop :: "WorkoutSession list \<Rightarrow> (string \<times> real) list \<Rightarrow> (string \<times> real) list" where
  "volume_loop [] volumes = volumes"
| "volume_loop (workout # rest) volumes =
    (let volumes1 = (if map_of volumes (exercise workout) = None
                     then AList.update (exercise workout) 0 volumes else volumes)
     in volume_loop rest
          (AList.update (exercise workout)
             (dict_get volumes1 (exercise workout) 0 + total_volume workout) volumes1))"

definition get_volume_by_exercise ::
  "WorkoutPerformanceAnalyzer \<Rightarrow> heap \<Rightarrow> (string \<times> real) list \<times> heap" where
  "get_volume_by_exercise self h = (volume_loop (cells h (workouts self)) [], h)"

definition get_session_summary ::
  "WorkoutPerformanceAnalyzer \<Rightarrow> string \<Rightarrow> heap \<Rightarrow> pyval \<times> heap" where
  "get_session_summary self d h =
    (case find (\<lambda>w. date w = d) (cells h (workouts self)) of
       None \<Rightarrow> (PDict [(''error'', PStr (''No workout found on '' @ d))], h)
     | Some session \<Rightarrow>
        (PDict
          [(''date'', PStr (date session)),
           (''exercise'', PStr (exercise session)),
           (''total_volume'', PNum (total_volume session)),
           (''sets_count'', PNum (of_nat (length (sets session)))),
           (''max_weight'', PNum (max_default (map weight (sets session)) 0)),
           (''avg_reps'',
              PNum (if sets session \<noteq> []
                    then of_int (sum_list (map reps (sets session)))
                           / of_nat (length (sets session))
                    else 0)),
           (''duration_minutes'', PNum (of_int (duration_minutes session)))], h))"

text \<open>\<^verbatim>\<open>dataclasses.asdict\<close>: the fields in declaration order, the sets expanded too.\<close>

definition asdict_set :: "WorkoutSet \<Rightarrow> pyval" where
  "asdict_set s =
    PDict [(''exercise'', PStr (set_exercise s)), (''reps'', PNum (of_int (reps s))),
           (''weight'', PNum (weight s)), (''rpe'', PNum (rpe s)),
           (''date'', PStr (set_date s)), (''notes'', PStr (set_notes s))]"

definition asdict :: "WorkoutSession \<Rightarrow> pyval" where
  "asdict w =
    PDict [(''date'', PStr (date w)), (''exercise'', PStr (exercise w)),
           (''sets'', PList (map asdict_set (sets w))),
           (''total_volume'', PNum (total_volume w)),
           (''duration_minutes'', PNum (of_int (duration_minutes w)))]"

definition get_recent_workouts ::
  "WorkoutPerformanceAnalyzer \<Rightarrow> int \<Rightarrow> heap \<Rightarrow> pyval list \<times> heap" where
  "get_recent_workouts self days h =
    (let (sorted_workouts, h1) = sorted_by_date_reverse (workouts self) h;
         (sliced, h2) = new_list (slice_to (cells h1 sorted_workouts) days) h1
     in (map asdict (cells h2 sliced), h2))"

definition generate_report :: "WorkoutPerformanceAnalyzer \<Rightarrow> heap \<Rightarrow> pyval \<times> heap" where
  "generate_report self h =
    (case cells h (workouts self) of
       [] \<Rightarrow> (PDict [(''error'', PStr ''No workout data available'')], h)
     | w0 # ws \<Rightarrow>
        let (prs, h1) = get_personal_records self None h;
            (volumes, h2) = get_volume_by_exercise self h1;
            total = foldl (+) 0 (map snd volumes);
            start = foldl min (date w0) (map date ws);
            end' = foldl max (date w0) (map date ws);
            (recent, h3) = get_recent_workouts self 5 h2
        in (PDict
             [(''total_sessions'', PNum (of_nat (length (cells h (workouts self))))),
              (''exercises_tracked'', PList (map (\<lambda>kv. PStr (fst kv)) prs)),
              (''personal_records'', PDict (map (\<lambda>kv. (fst kv, PNum (snd kv))) prs)),
              (''total_volume_by_exercise'',
                 PDict (map (\<lambda>kv. (fst kv, PNum (snd kv))) volumes)),
              (''total_volume_overall'', PNum total),
              (''date_range'', PDict [(''start'', PStr start), (''end'', PStr end')]),
              (''recent_workouts'', PList recent)], h3))"

subsection \<open>The states of a run\<close>

text \<open>
  The analyzer and the store after the constructor has returned and any number of
  calls of its methods, with any arguments, have been made. A call of \<^verbatim>\<open>load_data\<close> that
  raises leaves a state too: the caller may catch the exception and go on.
\<close>

inductive reachable :: "WorkoutPerformanceAnalyzer \<Rightarrow> heap \<Rightarrow> bool" where
  r_init: "init df fs h0 = (Inr self, h) \<Longrightarrow> reachable self h"
| r_load_data: "reachable self h \<Longrightarrow> load_data self path fs h = (res, h') \<Longrightarrow> reachable self h'"
| r_add_workout: "reachable self h \<Longrightarrow> reachable self (add_workout self workout h)"
| r_get_personal_records:
    "reachable self h \<Longrightarrow> reachable self (snd (get_personal_records self ex h))"
| r_calculate_progression:
    "reachable self h \<Longrightarrow> reachable self (snd (calculate_progression self x window_days h))"
| r_get_volume_by_exercise:
    "reachable self h \<Longrightarrow> reachable self (snd (get_volume_by_exercise self h))"
| r_get_session_summary:
    "reachable self h \<Longrightarrow> reachable self (snd (get_session_summary self d h))"
| r_get_recent_workouts:
    "reachable self h \<Longrightarrow> reachable self (snd (get_recent_workouts self days h))"
| r_generate_report:
    "reachable self h \<Longrightarrow> reachable self (snd (generate_report self h))"

subsection \<open>Notions used in the statements\<close>

text \<open>The store \<open>h'\<close> holds every list of \<open>h\<close> unchanged, and maybe new ones.\<close>

definition heap_extends :: "heap \<Rightarrow> heap \<Rightarrow> bool" where
  "heap_extends h h' = (fresh h \<le> fresh h' \<and> (\<forall>r<fresh h. cells h' r = cells h r))"

definition volume_ok :: "WorkoutSession \<Rightarrow> bool" where
  "volume_ok w = (total_volume w = calculate_total_volume (sets w))"

definition collection_ok :: "WorkoutPerformanceAnalyzer \<Rightarrow> heap \<Rightarrow> bool" where
  "collection_ok self h =
     (workouts self < fresh h \<and> list_all volume_ok (cells h (workouts self)))"

text \<open>The weights of all the sets of the sessions of one exercise.\<close>

definition recorded_weights :: "string \<Rightarrow> WorkoutSession list \<Rightarrow> real list" where
  "recorded_weights x ws =
     concat (map (\<lambda>w. map weight (sets w)) (filter (\<lambda>w. exercise w = x) ws))"

text \<open>A set object, and a session object, that has every required field.\<close>

definition set_complete :: "SetObj \<Rightarrow> bool" where
  "set_complete s =
     (j_set_exercise s \<noteq> None \<and> j_reps s \<noteq> None \<and> j_weight s \<noteq> None
      \<and> j_rpe s \<noteq> None \<and> j_set_date s \<noteq> None)"

definition session_complete :: "SessionObj \<Rightarrow> bool" where
  "session_complete session =
     (j_date session \<noteq> None \<and> j_exercise session \<noteq> None
      \<and> list_all set_complete (get_or (j_sets session) []))"

subsection \<open>Example data\<close>

definition empty_heap :: heap where
  "empty_heap = \<lparr>cells = (\<lambda>r. []), fresh = 0\<rparr>"

definition bench_obj :: SessionObj where
  "bench_obj =
    \<lparr>j_date = Some ''2026-01-01'', j_exercise = Some ''Bench'',
     j_sets = Some
       [\<lparr>j_set_exercise = Some ''Bench'', j_reps = Some 8, j_weight = Some 60,
         j_rpe = Some 8, j_set_date = Some ''2026-01-01'', j_notes = None\<rparr>],
     j_duration_minutes = None\<rparr>"

definition squat_obj :: SessionObj where
  "squat_obj =
    \<lparr>j_date = Some ''2026-01-05'', j_exercise = Some ''Squat'',
     j_sets = Some
       [\<lparr>j_set_exercise = Some ''Squat'', j_reps = Some 5, j_weight = Some 100,
         j_rpe = Some 7, j_set_date = Some ''2026-01-05'', j_notes = None\<rparr>,
        \<lparr>j_set_exercise = Some ''Squat'', j_reps = Some 3, j_weight = Some 120,
         j_rpe = Some 9, j_set_date = Some ''2026-01-05'', j_notes = Some ''heavy''\<rparr>],
     j_duration_minutes = Some 45\<rparr>"

definition rest_obj :: SessionObj where
  "rest_obj =
    \<lparr>j_date = Some ''2026-01-03'', j_exercise = Some ''Squat'',
     j_sets = None, j_duration_minutes = Some 30\<rparr>"

definition sample_document :: Document where
  "sample_document = \<lparr>j_sessions = Some [bench_obj, squat_obj, rest_obj]\<rparr>"

text \<open>A document whose second session has no \<^verbatim>\<open>date\<close>, between two complete sessions.\<close>

definition broken_document :: Document where
  "broken_document =
     \<lparr>j_sessions = Some [squat_obj, bench_obj\<lparr>j_date := None\<rparr>, rest_obj]\<rparr>"

definition sample_files :: "string \<Rightarrow> file_contents" where
  "sample_files path =
     (if path = ''sample_workouts.json'' then Parsed sample_document
      else if path = ''broken.json'' then Parsed broken_document
      else if path = ''notes.txt'' then Malformed
      else Missing)"

definition bench_session :: WorkoutSession where
  "bench_session =
    \<lparr>date = ''2026-01-01'', exercise = ''Bench'',
     sets =
       [\<lparr>set_exercise = ''Bench'', reps = 8, weight = 60, rpe = 8,
         set_date = ''2026-01-01'', set_notes = ''''\<rparr>],
     total_volume = 480, duration_minutes = 0\<rparr>"

definition squat_session :: WorkoutSession where
  "squat_session =
    \<lparr>date = ''2026-01-05'', exercise = ''Squat'',
     sets =
       [\<lparr>set_exercise = ''Squat'', reps = 5, weight = 100, rpe = 7,
         set_date = ''2026-01-05'', set_notes = ''''\<rparr>,
        \<lparr>set_exercise = ''Squat'', reps = 3, weight = 120, rpe = 9,
         set_date = ''2026-01-05'', set_notes = ''heavy''\<rparr>],
     total_volume = 860, duration_minutes = 45\<rparr>"

definition rest_session :: WorkoutSession where
  "rest_session =
    \<lparr>date = ''2026-01-03'', exercise = ''Squat'', sets = [],
     total_volume = 0, duration_minutes = 30\<rparr>"

definition sample_self :: WorkoutPerformanceAnalyzer where
  "sample_self = \<lparr>workouts = 0, data_file = Some ''sample_workouts.json''\<rparr>"

definition sample_heap :: heap where
  "sample_heap =
    \<lparr>cells = (\<lambda>r. [])(0 := [bench_session, squat_session, rest_session]), fresh = 1\<rparr>"

section \<open>Properties\<close>


subsection \<open>Total volume\<close>

lemma foldl_add_sum_list:
  "foldl (\<lambda>acc s. acc + f s) (a::real) ss = a + sum_list (map f ss)"
  by (induction ss arbitrary: a) simp_all

text \<open>
  Claim C1. For every list of sets, \<^verbatim>\<open>calculate_total_volume\<close> returns the sum over the
  entries of reps times weight, and 0 for the empty list.
\<close>

theorem calculate_total_volume_is_sum:
  "calculate_total_volume ss = (\<Sum>s\<leftarrow>ss. of_int (reps s) * weight s)
   \<and> calculate_total_volume [] = 0"
  by (simp add: calculate_total_volume_def foldl_add_sum_list)

subsection \<open>The store under the queries, and the invariant of the collection\<close>

lemma foldl_max_Max:
  "foldl max (x::'a::linorder) xs = Max (set (x # xs))"
  by (simp add: Max.set_eq_fold foldl_conv_fold max.commute del: set_simps)

lemma max_default_Max:
  "max_default xs d = (if xs = [] then d else Max (set xs))"
  by (cases xs) (simp_all add: max_default_def foldl_max_Max del: set_simps)

lemma foldl_min_Min:
  "foldl min (x::'a::linorder) xs = Min (set (x # xs))"
  by (simp add: Min.set_eq_fold foldl_conv_fold min.commute del: set_simps)

lemma heap_extends_refl: "heap_extends h h"
  by (simp add: heap_extends_def)

lemma new_list_extends: "heap_extends h (snd (new_list xs h))"
  by (simp add: heap_extends_def new_list_def)

lemma get_personal_records_store: "snd (get_personal_records self ex h) = h"
  by (simp add: get_personal_records_def Let_def)

lemma get_volume_by_exercise_store: "snd (get_volume_by_exercise self h) = h"
  by (simp add: get_volume_by_exercise_def)

lemma get_session_summary_store: "snd (get_session_summary self d h) = h"
  by (simp add: get_session_summary_def split: option.split)

lemma calculate_progression_extends:
  "heap_extends h (snd (calculate_progression self x wd h))"
  by (auto simp: calculate_progression_def heap_extends_def new_list_def list_sort_by_date_def Let_def)

lemma get_recent_workouts_extends:
  "heap_extends h (snd (get_recent_workouts self n h))"
  by (auto simp: get_recent_workouts_def heap_extends_def new_list_def sorted_by_date_reverse_def Let_def)

lemma generate_report_extends:
  "heap_extends h (snd (generate_report self h))"
  using get_recent_workouts_extends[of h self 5]
  by (auto simp: generate_report_def get_personal_records_store get_volume_by_exercise_store
      heap_extends_refl Let_def split_beta split: list.split)

lemma list_append_cell:
  "cells (list_append r w h) r' = (if r' = r then cells h r @ [w] else cells h r')"
  by (simp add: list_append_def)

lemma list_append_fresh: "fresh (list_append r w h) = fresh h"
  by (simp add: list_append_def)

lemma make_session_volume_ok: "make_session so = Inr w \<Longrightarrow> volume_ok w"
  by (auto simp: make_session_def volume_ok_def split: sum.splits)

lemma load_sessions_appends:
  "load_sessions r ss h = (res, h') \<Longrightarrow>
     fresh h' = fresh h \<and> (\<forall>r'. r' \<noteq> r \<longrightarrow> cells h' r' = cells h r')
     \<and> (\<exists>ws. cells h' r = cells h r @ ws \<and> list_all volume_ok ws)"
proof (induction ss arbitrary: h)
  case Nil
  then show ?case by auto
next
  case (Cons so ss)
  show ?case
  proof (cases "make_session so")
    case (Inl e)
    with Cons.prems show ?thesis by auto
  next
    case (Inr w)
    with Cons.prems have "load_sessions r ss (list_append r w h) = (res, h')" by simp
    from Cons.IH[OF this] obtain ws where
      f: "fresh h' = fresh h" and
      o: "\<forall>r'. r' \<noteq> r \<longrightarrow> cells h' r' = cells h r'" and
      c: "cells h' r = cells h r @ [w] @ ws" and a: "list_all volume_ok ws"
      by (auto simp: list_append_cell list_append_fresh)
    from a make_session_volume_ok[OF Inr] have "list_all volume_ok ([w] @ ws)" by simp
    with f o c show ?thesis by blast
  qed
qed

lemma load_data_appends:
  assumes "load_data self path fs h = (res, h')"
  shows "fresh h' = fresh h \<and> (\<forall>r'. r' \<noteq> workouts self \<longrightarrow> cells h' r' = cells h r')
     \<and> (\<exists>ws. cells h' (workouts self) = cells h (workouts self) @ ws \<and> list_all volume_ok ws)"
proof (cases "fs path")
  case Missing
  with assms show ?thesis by (auto simp: load_data_def)
next
  case Malformed
  with assms show ?thesis by (auto simp: load_data_def)
next
  case (Parsed data)
  obtain r h1 where l: "load_sessions (workouts self) (get_or (j_sessions data) []) h = (r, h1)"
    by (cases "load_sessions (workouts self) (get_or (j_sessions data) []) h") auto
  with assms Parsed have "h' = h1" by (auto simp: load_data_def split: sum.splits)
  with load_sessions_appends[OF l] show ?thesis by simp
qed

lemma collection_ok_extends:
  "collection_ok self h \<Longrightarrow> heap_extends h h' \<Longrightarrow> collection_ok self h'"
  by (auto simp: collection_ok_def heap_extends_def)

lemma collection_ok_load_data:
  "collection_ok self h \<Longrightarrow> load_data self path fs h = (res, h') \<Longrightarrow> collection_ok self h'"
  using load_data_appends[of self path fs h res h'] by (auto simp: collection_ok_def)

lemma collection_ok_add_workout:
  "collection_ok self h \<Longrightarrow> collection_ok self (add_workout self w h)"
  by (simp add: collection_ok_def add_workout_def list_append_cell list_append_fresh volume_ok_def)

lemma init_cases:
  "init df fs h0 =
    (let self = \<lparr>workouts = fresh h0, data_file = df\<rparr>; h1 = snd (new_list [] h0)
     in if truthy df
        then (case load_data self (the df) fs h1 of
                (Inl e, h2) \<Rightarrow> (Inl e, h2)
              | (Inr n, h2) \<Rightarrow> (Inr self, h2))
        else (Inr self, h1))"
  by (cases df) (simp_all add: init_def new_list_def Let_def)

lemma collection_ok_init:
  assumes "init df fs h0 = (Inr self, h)"
  shows "collection_ok self h"
proof -
  define self0 where "self0 = \<lparr>workouts = fresh h0, data_file = df\<rparr>"
  define h1 where "h1 = snd (new_list [] h0)"
  have ok0: "collection_ok self0 h1"
    by (simp add: collection_ok_def self0_def h1_def new_list_def)
  show ?thesis
  proof (cases "truthy df")
    case False
    with assms have "self = self0 \<and> h = h1"
      by (simp add: init_cases self0_def h1_def Let_def)
    with ok0 show ?thesis by simp
  next
    case True
    obtain res h2 where l: "load_data self0 (the df) fs h1 = (res, h2)"
      by (cases "load_data self0 (the df) fs h1") auto
    with assms True have "self = self0 \<and> h = h2"
      by (auto simp: init_cases self0_def h1_def Let_def split: sum.splits)
    with collection_ok_load_data[OF ok0 l] show ?thesis by simp
  qed
qed

lemma reachable_collection_ok: "reachable self h \<Longrightarrow> collection_ok self h"
proof (induction rule: reachable.induct)
  case (r_init df fs h0 self h)
  then show ?case by (rule collection_ok_init)
next
  case (r_load_data self h path fs res h')
  from r_load_data.IH r_load_data.hyps(2) show ?case by (rule collection_ok_load_data)
next
  case (r_add_workout self h workout)
  from r_add_workout.IH show ?case by (rule collection_ok_add_workout)
next
  case (r_get_personal_records self h ex)
  then show ?case by (simp add: get_personal_records_store)
next
  case (r_calculate_progression self h x window_days)
  from r_calculate_progression.IH show ?case
    by (rule collection_ok_extends) (rule calculate_progression_extends)
next
  case (r_get_volume_by_exercise self h)
  then show ?case by (simp add: get_volume_by_exercise_store)
next
  case (r_get_session_summary self h d)
  then show ?case by (simp add: get_session_summary_store)
next
  case (r_get_recent_workouts self h days)
  from r_get_recent_workouts.IH show ?case
    by (rule collection_ok_extends) (rule get_recent_workouts_extends)
next
  case (r_generate_report self h)
  from r_generate_report.IH show ?case
    by (rule collection_ok_extends) (rule generate_report_extends)
qed

text \<open>
  Claim C2. In every state that the constructor followed by any sequence of calls of
  \<^verbatim>\<open>load_data\<close>, \<^verbatim>\<open>add_workout\<close> and the queries reaches, each session of the collection
  has a \<^verbatim>\<open>total_volume\<close> equal to \<^verbatim>\<open>calculate_total_volume\<close> of its sets, the sum over its
  sets of reps times weight.
\<close>

theorem total_volume_invariant:
  "reachable self h \<Longrightarrow>
     \<forall>w \<in> set (cells h (workouts self)).
        total_volume w = calculate_total_volume (sets w)
        \<and> total_volume w = (\<Sum>s\<leftarrow>sets w. of_int (reps s) * weight s)"
  using reachable_collection_ok[of self h]
  by (simp add: collection_ok_def list_all_iff volume_ok_def calculate_total_volume_def
      foldl_add_sum_list)

text \<open>
  Claim C10. Each of the six queries leaves the list that \<^verbatim>\<open>self.workouts\<close> refers to as it
  was: the same sessions in the same order. The sorts inside \<^verbatim>\<open>calculate_progression\<close> and
  \<^verbatim>\<open>get_recent_workouts\<close> work on new lists.
\<close>

theorem queries_leave_collection:
  assumes "reachable self h"
  shows "cells (snd (get_personal_records self ex h)) (workouts self) = cells h (workouts self)
    \<and> cells (snd (calculate_progression self x window_days h)) (workouts self) = cells h (workouts self)
    \<and> cells (snd (get_volume_by_exercise self h)) (workouts self) = cells h (workouts self)
    \<and> cells (snd (get_session_summary self d h)) (workouts self) = cells h (workouts self)
    \<and> cells (snd (get_recent_workouts self days h)) (workouts self) = cells h (workouts self)
    \<and> cells (snd (generate_report self h)) (workouts self) = cells h (workouts self)"
proof -
  from assms have lt: "workouts self < fresh h"
    using reachable_collection_ok by (simp add: collection_ok_def)
  have ext: "\<And>h'. heap_extends h h' \<Longrightarrow> cells h' (workouts self) = cells h (workouts self)"
    using lt by (simp add: heap_extends_def)
  show ?thesis
    by (simp add: get_personal_records_store get_volume_by_exercise_store
        get_session_summary_store ext[OF calculate_progression_extends]
        ext[OF get_recent_workouts_extends] ext[OF generate_report_extends])
qed

lemma sample_init:
  "init (Some ''sample_workouts.json'') sample_files empty_heap = (Inr sample_self, sample_heap)"
  by (simp add: init_def new_list_def load_data_def sample_files_def sample_document_def
      squat_obj_def bench_obj_def rest_obj_def get_or_def make_session_def make_set_def subscript_def list_append_def
      calculate_total_volume_def empty_heap_def sample_self_def sample_heap_def
      squat_session_def bench_session_def rest_session_def)

lemma sample_reachable: "reachable sample_self sample_heap"
  by (rule r_init[OF sample_init])

theorem total_volume_invariant_witness:
  "reachable sample_self sample_heap
   \<and> list_all (\<lambda>w. total_volume w = calculate_total_volume (sets w)
                    \<and> total_volume w = (\<Sum>s\<leftarrow>sets w. of_int (reps s) * weight s))
        (cells sample_heap (workouts sample_self))
   \<and> map total_volume (cells sample_heap (workouts sample_self)) = [480, 860, 0]"
  using total_volume_invariant[OF sample_reachable] sample_reachable
  by (simp add: list_all_iff sample_heap_def sample_self_def squat_session_def
      bench_session_def rest_session_def)

theorem queries_leave_collection_witness:
  "reachable sample_self sample_heap
   \<and> cells (snd (get_personal_records sample_self None sample_heap)) (workouts sample_self)
       = [bench_session, squat_session, rest_session]
   \<and> cells (snd (calculate_progression sample_self ''Squat'' 30 sample_heap)) (workouts sample_self)
       = [bench_session, squat_session, rest_session]
   \<and> cells (snd (get_volume_by_exercise sample_self sample_heap)) (workouts sample_self)
       = [bench_session, squat_session, rest_session]
   \<and> cells (snd (get_session_summary sample_self ''2026-01-05'' sample_heap)) (workouts sample_self)
       = [bench_session, squat_session, rest_session]
   \<and> cells (snd (get_recent_workouts sample_self 2 sample_heap)) (workouts sample_self)
       = [bench_session, squat_session, rest_session]
   \<and> cells (snd (generate_report sample_self sample_heap)) (workouts sample_self)
       = [bench_session, squat_session, rest_session]
   \<and> cells (snd (calculate_progression sample_self ''Squat'' 30 sample_heap)) (fresh sample_heap)
       = [rest_session, squat_session]
   \<and> cells (snd (get_recent_workouts sample_self 2 sample_heap)) (fresh sample_heap)
       = [squat_session, rest_session, bench_session]"
proof -
  have c: "cells (snd (calculate_progression sample_self ''Squat'' 30 sample_heap)) (fresh sample_heap)
       = [rest_session, squat_session]"
    by (simp add: calculate_progression_def new_list_def list_sort_by_date_def Let_def
        sample_heap_def sample_self_def)
      (simp add: squat_session_def bench_session_def rest_session_def)
  have r: "cells (snd (get_recent_workouts sample_self 2 sample_heap)) (fresh sample_heap)
       = [squat_session, rest_session, bench_session]"
    by (simp add: get_recent_workouts_def sorted_by_date_reverse_def new_list_def Let_def
        sample_heap_def sample_self_def)
      (simp add: squat_session_def bench_session_def rest_session_def)
  from queries_leave_collection[OF sample_reachable, of None "''Squat''" 30 "''2026-01-05''" 2]
    sample_reachable c r
  show ?thesis
    by (simp add: sample_heap_def sample_self_def)
qed


subsection \<open>Ingestion of a document with a missing field\<close>

lemma make_set_complete: "set_complete s \<longleftrightarrow> (\<exists>x. make_set s = Inr x)"
  by (auto simp: set_complete_def make_set_def subscript_def split: option.splits)

lemma make_sets_complete: "list_all set_complete ss \<longleftrightarrow> (\<exists>xs. make_sets ss = Inr xs)"
  by (induction ss) (auto simp: make_set_complete split: sum.splits)

lemma make_session_complete: "session_complete so \<longleftrightarrow> (\<exists>w. make_session so = Inr w)"
  by (auto simp: session_complete_def make_session_def make_sets_complete subscript_def
      split: option.splits sum.splits)

lemma load_sessions_prefix:
  "load_sessions r ss h = (res, h') \<Longrightarrow>
     \<exists>ws. cells h' r = cells h r @ ws
        \<and> map Inr ws = map make_session (takeWhile session_complete ss)"
proof (induction ss arbitrary: h)
  case Nil
  then show ?case by auto
next
  case (Cons so ss)
  show ?case
  proof (cases "make_session so")
    case (Inl e)
    then have "\<not> session_complete so" by (simp add: make_session_complete)
    with Cons.prems Inl show ?thesis by auto
  next
    case (Inr w)
    then have c: "session_complete so" by (auto simp: make_session_complete)
    from Cons.prems Inr have "load_sessions r ss (list_append r w h) = (res, h')" by simp
    from Cons.IH[OF this] obtain ws where
      "cells h' r = cells h r @ w # ws"
      "map Inr ws = map make_session (takeWhile session_complete ss)"
      by (auto simp: list_append_cell)
    with c Inr have "cells h' r = cells h r @ (w # ws)
        \<and> map Inr (w # ws) = map make_session (takeWhile session_complete (so # ss))"
      by simp
    then show ?thesis by blast
  qed
qed

lemma load_sessions_result:
  "load_sessions r ss h = (res, h') \<Longrightarrow> (\<exists>e. res = Inl e) \<longleftrightarrow> \<not> list_all session_complete ss"
proof (induction ss arbitrary: h)
  case Nil
  then show ?case by auto
next
  case (Cons so ss)
  show ?case
  proof (cases "make_session so")
    case (Inl e)
    then have "\<not> session_complete so" by (simp add: make_session_complete)
    with Cons.prems Inl show ?thesis by auto
  next
    case (Inr w)
    then have c: "session_complete so" by (auto simp: make_session_complete)
    from Cons.prems Inr have "load_sessions r ss (list_append r w h) = (res, h')" by simp
    from Cons.IH[OF this] c show ?thesis by simp
  qed
qed

text \<open>
  Claim C3, amended. When the document at the path has a session object that lacks
  \<^verbatim>\<open>date\<close> or \<^verbatim>\<open>exercise\<close>, or one of whose sets lacks \<^verbatim>\<open>exercise\<close>, \<^verbatim>\<open>reps\<close>, \<^verbatim>\<open>weight\<close>,
  \<^verbatim>\<open>rpe\<close> or \<^verbatim>\<open>date\<close>, \<^verbatim>\<open>load_data\<close> appends the sessions that come before the first such
  object, in the order of the document and each with its \<^verbatim>\<open>total_volume\<close> computed, and
  appends neither that session nor any later one. No other list of the store changes, and a
  collection that was well formed stays so.
\<close>

theorem load_data_incomplete_document:
  assumes "fs path = Parsed doc"
    and "\<not> list_all session_complete (get_or (j_sessions doc) [])"
    and "load_data self path fs h = (res, h')"
  shows "(\<exists>ws. cells h' (workouts self) = cells h (workouts self) @ ws
            \<and> map Inr ws = map make_session (takeWhile session_complete (get_or (j_sessions doc) []))
            \<and> list_all volume_ok ws)
         \<and> (\<forall>r. r \<noteq> workouts self \<longrightarrow> cells h' r = cells h r)
         \<and> fresh h' = fresh h
         \<and> (collection_ok self h \<longrightarrow> collection_ok self h')"
proof -
  obtain r h1 where l: "load_sessions (workouts self) (get_or (j_sessions doc) []) h = (r, h1)"
    by (cases "load_sessions (workouts self) (get_or (j_sessions doc) []) h") auto
  with assms have h1: "h' = h1" by (auto simp: load_data_def split: sum.splits)
  from load_sessions_prefix[OF l] h1 obtain ws where
    c: "cells h' (workouts self) = cells h (workouts self) @ ws" and
    m: "map Inr ws = map make_session (takeWhile session_complete (get_or (j_sessions doc) []))"
    by auto
  from load_data_appends[OF assms(3)] c have v: "list_all volume_ok ws" by auto
  from load_data_appends[OF assms(3)] have
    o: "(\<forall>r. r \<noteq> workouts self \<longrightarrow> cells h' r = cells h r) \<and> fresh h' = fresh h" by simp
  from collection_ok_load_data[OF _ assms(3)] have k: "collection_ok self h \<longrightarrow> collection_ok self h'"
    by simp
  from c m v o k show ?thesis by blast
qed

lemma sample_workouts_ref: "workouts sample_self = 0"
  by (simp add: sample_self_def)

lemma sample_cells:
  "cells sample_heap 0 = [bench_session, squat_session, rest_session]" "fresh sample_heap = 1"
  by (simp_all add: sample_heap_def)

lemma broken_load:
  "load_data sample_self ''broken.json'' sample_files sample_heap =
     (Inl (KeyError ''date''),
      \<lparr>cells = (\<lambda>r. [])(0 := [bench_session, squat_session, rest_session, squat_session]),
       fresh = 1\<rparr>)"
  by (simp add: load_data_def sample_files_def broken_document_def
      squat_obj_def bench_obj_def rest_obj_def get_or_def make_session_def make_set_def
      subscript_def list_append_def calculate_total_volume_def sample_self_def sample_heap_def
      squat_session_def bench_session_def rest_session_def)

text \<open>The amended claim at a document whose second session has no date.\<close>

theorem load_data_incomplete_document_witness:
  "sample_files ''broken.json'' = Parsed broken_document
   \<and> \<not> list_all session_complete (get_or (j_sessions broken_document) [])
   \<and> (\<exists>ws. cells (snd (load_data sample_self ''broken.json'' sample_files sample_heap)) 0
             = cells sample_heap 0 @ ws
          \<and> map Inr ws = [make_session squat_obj])
   \<and> fresh (snd (load_data sample_self ''broken.json'' sample_files sample_heap)) = 1"
proof -
  have f: "sample_files ''broken.json'' = Parsed broken_document"
    by (simp add: sample_files_def)
  have n: "\<not> list_all session_complete (get_or (j_sessions broken_document) [])"
    by (simp add: broken_document_def get_or_def session_complete_def bench_obj_def)
  have t: "takeWhile session_complete (get_or (j_sessions broken_document) []) = [squat_obj]"
    by (simp add: broken_document_def get_or_def session_complete_def bench_obj_def
        squat_obj_def set_complete_def)
  from load_data_incomplete_document[OF f n broken_load] f n t show ?thesis
    by (simp add: broken_load sample_workouts_ref sample_cells)
qed

text \<open>
  Claim C3 as stated fails there: the \<^verbatim>\<open>KeyError\<close> reaches the caller, and the complete
  session that follows the defective one is not ingested.
\<close>

theorem load_data_missing_field_raises:
  "\<not> session_complete (bench_obj\<lparr>j_date := None\<rparr>)
   \<and> session_complete rest_obj
   \<and> fst (load_data sample_self ''broken.json'' sample_files sample_heap) = Inl (KeyError ''date'')
   \<and> cells (snd (load_data sample_self ''broken.json'' sample_files sample_heap))
        (workouts sample_self)
       = [bench_session, squat_session, rest_session, squat_session]"
  by (simp add: broken_load session_complete_def bench_obj_def rest_obj_def get_or_def
      sample_workouts_ref)


subsection \<open>Personal records\<close>

lemma foldl_max_assoc: "foldl max (max c a) r = max (c::'a::linorder) (foldl max a r)"
  by (induction r arbitrary: a) (simp_all add: max.assoc)

lemma max_default_start:
  "0 \<le> c \<Longrightarrow> max c (max_default xs 0) = foldl max (c::real) xs"
  by (cases xs) (simp_all add: max_default_def foldl_max_assoc)

lemma dict_get_update:
  "dict_get (AList.update k v d) x dflt = (if x = k then v else dict_get d x dflt)"
  by (simp add: dict_get_def update_conv')

lemma dict_get_nonneg:
  "\<forall>kv \<in> set d. 0 \<le> snd kv \<Longrightarrow> 0 \<le> dict_get d x (0::real)"
  by (fastforce simp: dict_get_def split: option.splits dest: map_of_SomeD)

lemma update_nonneg:
  "\<forall>kv \<in> set d. 0 \<le> snd kv \<Longrightarrow> 0 \<le> v \<Longrightarrow> \<forall>kv \<in> set (AList.update k v d). (0::real) \<le> snd kv"
  by (induction d) auto

lemma recorded_weights_Cons:
  "recorded_weights x (w # ws) =
     (if exercise w = x then map weight (sets w) @ recorded_weights x ws
      else recorded_weights x ws)"
  by (simp add: recorded_weights_def)

lemma recorded_weights_Nil: "recorded_weights x [] = []"
  by (simp add: recorded_weights_def)

lemma recorded_weights_absent:
  "x \<notin> exercise ` set ws \<Longrightarrow> recorded_weights x ws = []"
  by (induction ws) (auto simp: recorded_weights_Cons recorded_weights_Nil)

lemma personal_records_loop_keys:
  "\<not> truthy ex \<Longrightarrow>
     fst ` set (personal_records_loop ex ws prs) = fst ` set prs \<union> exercise ` set ws"
  by (induction ws arbitrary: prs) (auto simp: Let_def dom_update)

lemma personal_records_loop_distinct:
  "\<not> truthy ex \<Longrightarrow> distinct (map fst prs) \<Longrightarrow>
     distinct (map fst (personal_records_loop ex ws prs))"
  by (induction ws arbitrary: prs) (simp_all add: Let_def distinct_update)

lemma personal_records_loop_value:
  "\<not> truthy ex \<Longrightarrow> \<forall>kv \<in> set prs. 0 \<le> snd kv \<Longrightarrow>
     map_of (personal_records_loop ex ws prs) x =
       (if x \<in> exercise ` set ws
        then Some (foldl max (dict_get prs x 0) (recorded_weights x ws))
        else map_of prs x)"
proof (induction ws arbitrary: prs)
  case Nil
  then show ?case by simp
next
  case (Cons w ws)
  define c where "c = dict_get prs (exercise w) 0"
  define m where "m = max_default (map weight (sets w)) 0"
  define prs' where "prs' = AList.update (exercise w) (max c m) prs"
  have c0: "0 \<le> c" unfolding c_def using Cons.prems(2) by (rule dict_get_nonneg)
  then have "0 \<le> max c m" by simp
  with Cons.prems(2) have nn: "\<forall>kv \<in> set prs'. 0 \<le> snd kv"
    unfolding prs'_def by (rule update_nonneg)
  have step: "personal_records_loop ex (w # ws) prs = personal_records_loop ex ws prs'"
    using Cons.prems(1) by (simp add: Let_def prs'_def c_def m_def)
  note IH = Cons.IH[OF Cons.prems(1) nn]
  have key: "max c m = foldl max c (map weight (sets w))"
    unfolding m_def using c0 by (rule max_default_start)
  have cx: "dict_get prs (exercise w) 0 = c" by (simp add: c_def)
  have g: "dict_get prs' x 0 = (if x = exercise w then max c m else dict_get prs x 0)"
    by (simp add: prs'_def dict_get_update)
  have mo: "map_of prs' x = (if x = exercise w then Some (max c m) else map_of prs x)"
    by (simp add: prs'_def update_conv')
  have E: "map_of (personal_records_loop ex (w # ws) prs) x =
      (if x \<in> exercise ` set ws
       then Some (foldl max (if x = exercise w then max c m else dict_get prs x 0)
                    (recorded_weights x ws))
       else if x = exercise w then Some (max c m) else map_of prs x)"
    by (simp only: step IH g mo)
  show ?case
  proof (cases "x = exercise w")
    case True
    show ?thesis
      unfolding E using True
      by (simp add: recorded_weights_Cons key cx recorded_weights_absent)
  next
    case False
    then have "exercise w \<noteq> x" by simp
    show ?thesis
      unfolding E using False \<open>exercise w \<noteq> x\<close>
      by (simp add: recorded_weights_Cons)
  qed
qed

lemma personal_records_unfiltered_value:
  assumes "x \<in> exercise ` set (cells h (workouts self))"
  shows "map_of (fst (get_personal_records self None h)) x =
           Some (Max (insert 0 (set (recorded_weights x (cells h (workouts self))))))"
  using assms personal_records_loop_value[of None "[]" "cells h (workouts self)" x]
  by (simp add: get_personal_records_def dict_get_def foldl_max_Max del: foldl_Cons)


lemma personal_records_unfiltered_keys:
  "distinct (map fst (fst (get_personal_records self None h)))
   \<and> fst ` set (fst (get_personal_records self None h)) = exercise ` set (cells h (workouts self))"
  using personal_records_loop_keys[of None "cells h (workouts self)" "[]"]
    personal_records_loop_distinct[of None "[]" "cells h (workouts self)"]
  by (simp add: get_personal_records_def)

text \<open>
  The value of an entry is the greatest of 0 and the weights of all the sets of the sessions
  of its exercise: the running maximum starts at 0.
\<close>

lemma personal_records_from_zero:
  assumes "prs = fst (get_personal_records self None h)"
    and "ws = cells h (workouts self)"
  shows "distinct (map fst prs)
    \<and> fst ` set prs = exercise ` set ws
    \<and> (\<forall>x \<in> exercise ` set ws.
          map_of prs x = Some (Max (insert 0 (set (recorded_weights x ws)))))
    \<and> (\<forall>kv \<in> set prs.
          snd kv = Max (insert 0 (set (recorded_weights (fst kv) ws)))
          \<and> (\<forall>y \<in> set (recorded_weights (fst kv) ws). y \<le> snd kv)
          \<and> ((\<exists>y \<in> set (recorded_weights (fst kv) ws). 0 \<le> y)
                \<longrightarrow> snd kv = Max (set (recorded_weights (fst kv) ws)))
          \<and> (recorded_weights (fst kv) ws = [] \<longrightarrow> snd kv = 0))"
proof -
  have d: "distinct (map fst prs)" and k: "fst ` set prs = exercise ` set ws"
    using personal_records_unfiltered_keys[of self h] assms by simp_all
  have v: "map_of prs x = Some (Max (insert 0 (set (recorded_weights x ws))))"
    if "x \<in> exercise ` set ws" for x
    using personal_records_unfiltered_value[of x h self] that assms by simp
  have e: "snd kv = Max (insert 0 (set (recorded_weights (fst kv) ws)))
          \<and> (\<forall>y \<in> set (recorded_weights (fst kv) ws). y \<le> snd kv)
          \<and> ((\<exists>y \<in> set (recorded_weights (fst kv) ws). 0 \<le> y)
                \<longrightarrow> snd kv = Max (set (recorded_weights (fst kv) ws)))
          \<and> (recorded_weights (fst kv) ws = [] \<longrightarrow> snd kv = 0)"
    if kv: "kv \<in> set prs" for kv
  proof -
    let ?R = "set (recorded_weights (fst kv) ws)"
    from kv k have "fst kv \<in> exercise ` set ws" by auto
    from v[OF this] have "map_of prs (fst kv) = Some (Max (insert 0 ?R))" .
    moreover from d kv have "map_of prs (fst kv) = Some (snd kv)"
      by (cases kv) simp
    ultimately have s: "snd kv = Max (insert 0 ?R)" by simp
    have fin: "finite (insert 0 ?R)" by simp
    have ge: "\<forall>y \<in> ?R. y \<le> snd kv" unfolding s using fin by simp
    have mx: "snd kv = Max ?R" if "\<exists>y \<in> ?R. 0 \<le> y"
    proof -
      from that obtain y where y: "y \<in> ?R" "0 \<le> y" by blast
      then have ne: "?R \<noteq> {}" by auto
      from y have "0 \<le> Max ?R" by (meson List.finite_set Max_ge order_trans)
      with ne show ?thesis unfolding s by (simp add: max_def)
    qed
    have z: "snd kv = 0" if "recorded_weights (fst kv) ws = []"
      unfolding s using that by simp
    from s ge mx z show ?thesis by blast
  qed
  from d k v e show ?thesis by blast
qed

text \<open>
  Claim C4. Weights are not negative, as the data model has them. Then
  \<^verbatim>\<open>get_personal_records()\<close> with no filter returns one entry for each exercise name of the
  collection and no other; the value of an entry is at least the weight of every set of the
  sessions of that exercise and is the maximum of these weights, 0 when these sessions have
  no set.
\<close>

theorem personal_records_unfiltered:
  assumes "prs = fst (get_personal_records self None h)"
    and "ws = cells h (workouts self)"
    and "\<forall>w \<in> set ws. \<forall>s \<in> set (sets w). 0 \<le> weight s"
  shows "distinct (map fst prs)
    \<and> fst ` set prs = exercise ` set ws
    \<and> (\<forall>x \<in> exercise ` set ws.
          map_of prs x =
            Some (if recorded_weights x ws = [] then 0 else Max (set (recorded_weights x ws))))
    \<and> (\<forall>kv \<in> set prs.
          (\<forall>y \<in> set (recorded_weights (fst kv) ws). y \<le> snd kv)
          \<and> snd kv =
              (if recorded_weights (fst kv) ws = [] then 0
               else Max (set (recorded_weights (fst kv) ws))))"
proof -
  note g = personal_records_from_zero[OF assms(1) assms(2)]
  have nn: "0 \<le> y" if "y \<in> set (recorded_weights x ws)" for x y
    using that assms(3) by (auto simp: recorded_weights_def)
  have mx: "Max (insert 0 (set (recorded_weights x ws))) =
      (if recorded_weights x ws = [] then 0 else Max (set (recorded_weights x ws)))" for x
  proof (cases "recorded_weights x ws = []")
    case True
    then show ?thesis by simp
  next
    case False
    then obtain y where y: "y \<in> set (recorded_weights x ws)" by (cases "recorded_weights x ws") auto
    from nn[OF y] y have "0 \<le> Max (set (recorded_weights x ws))"
      by (meson List.finite_set Max_ge order_trans)
    with False show ?thesis by (simp add: max_def)
  qed
  note d = g[THEN conjunct1]
  note k = g[THEN conjunct2, THEN conjunct1]
  note v = g[THEN conjunct2, THEN conjunct2, THEN conjunct1]
  from g[THEN conjunct2, THEN conjunct2, THEN conjunct2] have e: "\<forall>kv \<in> set prs.
      snd kv = Max (insert 0 (set (recorded_weights (fst kv) ws)))
      \<and> (\<forall>y \<in> set (recorded_weights (fst kv) ws). y \<le> snd kv)"
    by blast
  from v have v': "\<forall>x \<in> exercise ` set ws.
      map_of prs x =
        Some (if recorded_weights x ws = [] then 0 else Max (set (recorded_weights x ws)))"
    unfolding mx .
  from e have e': "\<forall>kv \<in> set prs.
      (\<forall>y \<in> set (recorded_weights (fst kv) ws). y \<le> snd kv)
      \<and> snd kv =
          (if recorded_weights (fst kv) ws = [] then 0
           else Max (set (recorded_weights (fst kv) ws)))"
    unfolding mx by blast
  from d k v' e' show ?thesis by (intro conjI)
qed

lemma sample_personal_records:
  "fst (get_personal_records sample_self None sample_heap) = [(''Bench'', 60), (''Squat'', 120)]"
  by (simp add: get_personal_records_def sample_workouts_ref sample_cells squat_session_def
      bench_session_def rest_session_def max_default_def dict_get_def)

theorem personal_records_unfiltered_witness:
  "list_all (\<lambda>w. list_all (\<lambda>s. 0 \<le> weight s) (sets w))
      (cells sample_heap (workouts sample_self))
   \<and> fst (get_personal_records sample_self None sample_heap) = [(''Bench'', 60), (''Squat'', 120)]
   \<and> recorded_weights ''Squat'' (cells sample_heap (workouts sample_self)) = [100, 120]
   \<and> recorded_weights ''Bench'' (cells sample_heap (workouts sample_self)) = [60]
   \<and> map_of (fst (get_personal_records sample_self None sample_heap)) ''Squat''
       = Some (Max (set (recorded_weights ''Squat'' (cells sample_heap (workouts sample_self)))))
   \<and> list_all (\<lambda>kv. snd kv = Max (set (recorded_weights (fst kv) (cells sample_heap (workouts sample_self)))))
        (fst (get_personal_records sample_self None sample_heap))"
proof -
  have n: "\<forall>w \<in> set (cells sample_heap (workouts sample_self)). \<forall>s \<in> set (sets w). 0 \<le> weight s"
    by (simp add: sample_workouts_ref sample_cells squat_session_def bench_session_def
        rest_session_def)
  have r: "recorded_weights ''Squat'' (cells sample_heap (workouts sample_self)) = [100, 120]"
    "recorded_weights ''Bench'' (cells sample_heap (workouts sample_self)) = [60]"
    by (simp_all add: recorded_weights_def sample_workouts_ref sample_cells squat_session_def
        bench_session_def rest_session_def)
  from personal_records_unfiltered[OF refl refl n] n
  show ?thesis
    by (simp add: sample_personal_records r list_all_iff)
qed


subsection \<open>Progression\<close>

lemma calculate_progression_result:
  "fst (calculate_progression self x window_days h) =
    (let ws = sort_key date (filter (\<lambda>w. exercise w = x) (cells h (workouts self)))
     in if ws = [] then PDict [(''error'', PStr (''No data for '' @ x))]
        else PDict
               [(''exercise'', PStr x),
                (''total_sessions'', PNum (of_nat (length ws))),
                (''date_range'',
                   PDict [(''start'', PStr (date (hd ws))), (''end'', PStr (date (last ws)))]),
                (''volume_progression'',
                   PList (map (\<lambda>w. PDict [(''date'', PStr (date w)),
                                            (''volume'', PNum (total_volume w))]) ws)),
                (''max_weight_progression'',
                   PList (map (\<lambda>w. PDict [(''date'', PStr (date w)),
                                            (''weight'',
                                               PNum (max_default (map weight (sets w)) 0))]) ws))])"
proof -
  have e: "sort_key date xs = [] \<longleftrightarrow> xs = []" for xs :: "WorkoutSession list"
    by (metis length_sort length_0_conv)
  show ?thesis
    by (simp add: calculate_progression_def new_list_def list_sort_by_date_def Let_def e)
qed

lemma sorted_hd_Min:
  "xs \<noteq> [] \<Longrightarrow> sorted (map f xs) \<Longrightarrow> f (hd xs) = Min (f ` set xs)"
  by (cases xs) (auto intro!: Min_eqI[symmetric])

lemma sorted_last_Max:
  "xs \<noteq> [] \<Longrightarrow> sorted (map f xs) \<Longrightarrow> f (last xs) = Max (f ` set xs)"
proof -
  assume ne: "xs \<noteq> []" and s: "sorted (map f xs)"
  have "f y \<le> f (last xs)" if "y \<in> set xs" for y
  proof -
    from that obtain i where i: "i < length xs" "xs ! i = y" by (auto simp: in_set_conv_nth)
    from s i ne have "map f xs ! i \<le> map f xs ! (length xs - 1)"
      by (intro sorted_nth_mono) auto
    with i ne show ?thesis by (simp add: last_conv_nth)
  qed
  with ne show ?thesis by (intro Max_eqI[symmetric]) auto
qed

text \<open>
  Claim C5. When the collection holds no session of exercise \<open>x\<close>,
  \<^verbatim>\<open>calculate_progression(x)\<close> returns the dict with the one key \<^verbatim>\<open>"error"\<close> and the message
  \<^verbatim>\<open>No data for x\<close>; it has no key \<^verbatim>\<open>"volume_progression"\<close>. Otherwise the result holds the
  number of the sessions of \<open>x\<close>, the first and the last date of these sessions sorted by date
  in ascending lexicographic order (the least and the greatest date), and two series with
  one point for each session in that order: the date with the session's \<^verbatim>\<open>total_volume\<close>, and
  the date with the greatest weight of its sets, 0 when it has none. The sort is a stable
  sort of the selected sessions.
\<close>

theorem calculate_progression_spec:
  assumes "sel = filter (\<lambda>w. exercise w = x) (cells h (workouts self))"
    and "res = fst (calculate_progression self x window_days h)"
    and "ss = sort_key date sel"
  shows "(sel = [] \<longrightarrow>
            res = PDict [(''error'', PStr (''No data for '' @ x))]
            \<and> lookup res ''volume_progression'' = None)
    \<and> (sel \<noteq> [] \<longrightarrow>
            mset ss = mset sel \<and> sorted (map date ss)
            \<and> (\<forall>k. filter (\<lambda>w. date w = k) ss = filter (\<lambda>w. date w = k) sel)
            \<and> lookup res ''error'' = None
            \<and> lookup res ''exercise'' = Some (PStr x)
            \<and> lookup res ''total_sessions'' = Some (PNum (of_nat (length sel)))
            \<and> lookup res ''date_range'' =
                Some (PDict [(''start'', PStr (date (hd ss))), (''end'', PStr (date (last ss)))])
            \<and> date (hd ss) = Min (date ` set sel) \<and> date (last ss) = Max (date ` set sel)
            \<and> lookup res ''volume_progression'' =
                Some (PList (map (\<lambda>w. PDict [(''date'', PStr (date w)),
                                              (''volume'', PNum (total_volume w))]) ss))
            \<and> lookup res ''max_weight_progression'' =
                Some (PList (map (\<lambda>w. PDict [(''date'', PStr (date w)),
                                              (''weight'',
                                                 PNum (if sets w = [] then 0
                                                       else Max (weight ` set (sets w))))]) ss)))"
    (is "?A \<and> (?P \<longrightarrow> ?M \<and> ?S \<and> ?ST \<and> ?R)")
proof -
  have e: "ss = [] \<longleftrightarrow> sel = []"
    unfolding assms(3) by (metis length_sort length_0_conv)
  have r: "res =
    (if ss = [] then PDict [(''error'', PStr (''No data for '' @ x))]
        else PDict
               [(''exercise'', PStr x),
                (''total_sessions'', PNum (of_nat (length ss))),
                (''date_range'',
                   PDict [(''start'', PStr (date (hd ss))), (''end'', PStr (date (last ss)))]),
                (''volume_progression'',
                   PList (map (\<lambda>w. PDict [(''date'', PStr (date w)),
                                            (''volume'', PNum (total_volume w))]) ss)),
                (''max_weight_progression'',
                   PList (map (\<lambda>w. PDict [(''date'', PStr (date w)),
                                            (''weight'',
                                               PNum (max_default (map weight (sets w)) 0))]) ss))])"
    unfolding assms by (simp add: calculate_progression_result Let_def)
  have empty: "res = PDict [(''error'', PStr (''No data for '' @ x))]
            \<and> lookup res ''volume_progression'' = None" if "sel = []"
    using that e r by simp
  have m: "mset ss = mset sel" and s: "sorted (map date ss)"
    and st: "\<forall>k. filter (\<lambda>w. date w = k) ss = filter (\<lambda>w. date w = k) sel"
    unfolding assms(3) by (simp_all add: sort_key_stable)
  have len: "length ss = length sel" unfolding assms(3) by simp
  have sets_eq: "set ss = set sel" unfolding assms(3) by simp
  have mw: "max_default (map weight (sets w)) 0 =
      (if sets w = [] then 0 else Max (weight ` set (sets w)))" for w :: WorkoutSession
    by (simp add: max_default_Max)
  have nonempty: ?R
    if ne: "sel \<noteq> []"
  proof -
    from ne e have ne': "ss \<noteq> []" by simp
    from sorted_hd_Min[OF ne' s] sorted_last_Max[OF ne' s] sets_eq
    have mm: "date (hd ss) = Min (date ` set sel) \<and> date (last ss) = Max (date ` set sel)"
      by simp
    from ne' r have r': "res = PDict
               [(''exercise'', PStr x),
                (''total_sessions'', PNum (of_nat (length ss))),
                (''date_range'',
                   PDict [(''start'', PStr (date (hd ss))), (''end'', PStr (date (last ss)))]),
                (''volume_progression'',
                   PList (map (\<lambda>w. PDict [(''date'', PStr (date w)),
                                            (''volume'', PNum (total_volume w))]) ss)),
                (''max_weight_progression'',
                   PList (map (\<lambda>w. PDict [(''date'', PStr (date w)),
                                            (''weight'',
                                               PNum (max_default (map weight (sets w)) 0))]) ss))]"
      by simp
    show ?thesis
      unfolding r' using mm by (simp add: len mw)
  qed
  have A: ?A using empty by (rule impI)
  have B: "?P \<longrightarrow> ?M \<and> ?S \<and> ?ST \<and> ?R"
  proof (rule impI)
    assume "sel \<noteq> []"
    from nonempty[OF this] have r: ?R .
    from m s have ms: "?M \<and> ?S" by (rule conjI)
    from st r have "?ST \<and> ?R" by (rule conjI)
    with ms show "?M \<and> ?S \<and> ?ST \<and> ?R" by (simp only: conj_assoc simp_thms)
  qed
  from A B show ?thesis by (rule conjI)
qed


lemma sample_squat_sorted:
  "filter (\<lambda>w. exercise w = ''Squat'') (cells sample_heap (workouts sample_self))
     = [squat_session, rest_session]"
  "sort_key date [squat_session, rest_session] = [rest_session, squat_session]"
  "filter (\<lambda>w. exercise w = ''Deadlift'') (cells sample_heap (workouts sample_self)) = []"
  by (simp_all add: sample_workouts_ref sample_cells squat_session_def bench_session_def
      rest_session_def)

theorem calculate_progression_spec_witness:
  "filter (\<lambda>w. exercise w = ''Squat'') (cells sample_heap (workouts sample_self))
     = [squat_session, rest_session]
   \<and> sort_key date [squat_session, rest_session] = [rest_session, squat_session]
   \<and> lookup (fst (calculate_progression sample_self ''Squat'' 30 sample_heap)) ''total_sessions''
       = Some (PNum 2)
   \<and> lookup (fst (calculate_progression sample_self ''Squat'' 30 sample_heap)) ''date_range''
       = Some (PDict [(''start'', PStr ''2026-01-03''), (''end'', PStr ''2026-01-05'')])
   \<and> lookup (fst (calculate_progression sample_self ''Squat'' 30 sample_heap)) ''volume_progression''
       = Some (PList [PDict [(''date'', PStr ''2026-01-03''), (''volume'', PNum 0)],
                      PDict [(''date'', PStr ''2026-01-05''), (''volume'', PNum 860)]])
   \<and> lookup (fst (calculate_progression sample_self ''Squat'' 30 sample_heap))
        ''max_weight_progression''
       = Some (PList [PDict [(''date'', PStr ''2026-01-03''), (''weight'', PNum 0)],
                      PDict [(''date'', PStr ''2026-01-05''), (''weight'', PNum 120)]])
   \<and> filter (\<lambda>w. exercise w = ''Deadlift'') (cells sample_heap (workouts sample_self)) = []
   \<and> fst (calculate_progression sample_self ''Deadlift'' 30 sample_heap)
       = PDict [(''error'', PStr ''No data for Deadlift'')]
   \<and> lookup (fst (calculate_progression sample_self ''Deadlift'' 30 sample_heap))
        ''volume_progression'' = None"
proof -
  note s = calculate_progression_spec[OF refl refl refl, of "''Squat''" sample_heap sample_self 30]
  note d = calculate_progression_spec[OF refl refl refl, of "''Deadlift''" sample_heap sample_self 30]
  have v: "date rest_session = ''2026-01-03''" "date squat_session = ''2026-01-05''"
    "total_volume rest_session = 0" "total_volume squat_session = 860"
    "sets rest_session = []" "map weight (sets squat_session) = [100, 120]"
    by (simp_all add: rest_session_def squat_session_def)
  have mx: "Max (weight ` set (sets squat_session)) = 120" "sets squat_session \<noteq> []"
    by (simp_all add: squat_session_def)
  from s d show ?thesis
    by (simp add: sample_squat_sorted v mx)
qed

text \<open>
  Claim C6. The result of \<^verbatim>\<open>calculate_progression\<close>, and the store it leaves, do not depend on
  \<^verbatim>\<open>window_days\<close>.
\<close>

theorem window_days_no_effect:
  "calculate_progression self x w1 h = calculate_progression self x w2 h"
  by (simp add: calculate_progression_def)


subsection \<open>Session summary\<close>

lemma find_first:
  "\<forall>y \<in> set pre. \<not> P y \<Longrightarrow> P s \<Longrightarrow> find P (pre @ s # post) = Some s"
  by (induction pre) simp_all

lemma find_absent: "\<forall>y \<in> set xs. \<not> P y \<Longrightarrow> find P xs = None"
  by (simp add: find_None_iff)

text \<open>
  Claim C7. \<^verbatim>\<open>get_session_summary(d)\<close> returns the dict with the one key \<^verbatim>\<open>"error"\<close> when no
  session of the collection has the date \<open>d\<close>. Otherwise it describes the first session, in the
  order of the collection, whose date is \<open>d\<close>: its date, exercise, \<^verbatim>\<open>total_volume\<close>, number of
  sets, greatest weight of a set (0 without sets), mean of the reps of its sets (0 without
  sets, so that nothing is divided by 0) and duration. When that session has the sets (5
  reps, weight 100) and (3 reps, weight 120), in a state the analyzer can reach, the summary
  has total volume 860, greatest weight 120, mean reps 4 and 2 sets.
\<close>

theorem get_session_summary_spec:
  assumes "ws = cells h (workouts self)"
    and "res = fst (get_session_summary self d h)"
  shows "(d \<notin> date ` set ws \<longrightarrow>
            res = PDict [(''error'', PStr (''No workout found on '' @ d))])
    \<and> (\<forall>pre s post. ws = pre @ s # post \<and> d \<notin> date ` set pre \<and> date s = d \<longrightarrow>
          res = PDict
            [(''date'', PStr d),
             (''exercise'', PStr (exercise s)),
             (''total_volume'', PNum (total_volume s)),
             (''sets_count'', PNum (of_nat (length (sets s)))),
             (''max_weight'', PNum (if sets s = [] then 0 else Max (weight ` set (sets s)))),
             (''avg_reps'',
                PNum (if sets s = [] then 0
                      else of_int (\<Sum>t\<leftarrow>sets s. reps t) / of_nat (length (sets s)))),
             (''duration_minutes'', PNum (of_int (duration_minutes s)))]
          \<and> (reachable self h \<and> map (\<lambda>t. (reps t, weight t)) (sets s) = [(5, 100), (3, 120)] \<longrightarrow>
                lookup res ''total_volume'' = Some (PNum 860)
                \<and> lookup res ''max_weight'' = Some (PNum 120)
                \<and> lookup res ''avg_reps'' = Some (PNum 4)
                \<and> lookup res ''sets_count'' = Some (PNum 2)))"
    (is "?A \<and> ?B")
proof -
  have A: ?A
  proof
    assume "d \<notin> date ` set ws"
    then have "find (\<lambda>w. date w = d) ws = None" by (intro find_absent) auto
    then show "res = PDict [(''error'', PStr (''No workout found on '' @ d))]"
      unfolding assms by (simp add: get_session_summary_def)
  qed
  have B: ?B
  proof (intro allI impI)
    fix pre s post
    assume a: "ws = pre @ s # post \<and> d \<notin> date ` set pre \<and> date s = d"
    then have "\<forall>y \<in> set pre. \<not> date y = d" and "date s = d"
      by (auto simp: image_iff)
    then have "find (\<lambda>w. date w = d) (pre @ s # post) = Some s" by (rule find_first)
    with a have "find (\<lambda>w. date w = d) ws = Some s" by simp
    then have r: "res = PDict
            [(''date'', PStr d),
             (''exercise'', PStr (exercise s)),
             (''total_volume'', PNum (total_volume s)),
             (''sets_count'', PNum (of_nat (length (sets s)))),
             (''max_weight'', PNum (if sets s = [] then 0 else Max (weight ` set (sets s)))),
             (''avg_reps'',
                PNum (if sets s = [] then 0
                      else of_int (\<Sum>t\<leftarrow>sets s. reps t) / of_nat (length (sets s)))),
             (''duration_minutes'', PNum (of_int (duration_minutes s)))]"
      unfolding assms using a by (simp add: get_session_summary_def max_default_Max)
    have ex: "lookup res ''total_volume'' = Some (PNum 860)
                \<and> lookup res ''max_weight'' = Some (PNum 120)
                \<and> lookup res ''avg_reps'' = Some (PNum 4)
                \<and> lookup res ''sets_count'' = Some (PNum 2)"
      if re: "reachable self h"
        and m: "map (\<lambda>t. (reps t, weight t)) (sets s) = [(5, 100), (3, 120)]"
    proof -
      from m obtain t1 t2 where t: "sets s = [t1, t2]"
        "reps t1 = 5" "weight t1 = 100" "reps t2 = 3" "weight t2 = 120"
        by auto
      from a assms have "s \<in> set (cells h (workouts self))" by simp
      with reachable_collection_ok[OF re] have "volume_ok s"
        by (simp add: collection_ok_def list_all_iff)
      with t have tv: "total_volume s = 860"
        by (simp add: volume_ok_def calculate_total_volume_def)
      show ?thesis unfolding r using t tv by simp
    qed
    have exI: "reachable self h \<and> map (\<lambda>t. (reps t, weight t)) (sets s) = [(5, 100), (3, 120)] \<longrightarrow>
                lookup res ''total_volume'' = Some (PNum 860)
                \<and> lookup res ''max_weight'' = Some (PNum 120)
                \<and> lookup res ''avg_reps'' = Some (PNum 4)
                \<and> lookup res ''sets_count'' = Some (PNum 2)"
      using ex by (intro impI) (elim conjE)
    from r exI show "res = PDict
            [(''date'', PStr d),
             (''exercise'', PStr (exercise s)),
             (''total_volume'', PNum (total_volume s)),
             (''sets_count'', PNum (of_nat (length (sets s)))),
             (''max_weight'', PNum (if sets s = [] then 0 else Max (weight ` set (sets s)))),
             (''avg_reps'',
                PNum (if sets s = [] then 0
                      else of_int (\<Sum>t\<leftarrow>sets s. reps t) / of_nat (length (sets s)))),
             (''duration_minutes'', PNum (of_int (duration_minutes s)))]
          \<and> (reachable self h \<and> map (\<lambda>t. (reps t, weight t)) (sets s) = [(5, 100), (3, 120)] \<longrightarrow>
                lookup res ''total_volume'' = Some (PNum 860)
                \<and> lookup res ''max_weight'' = Some (PNum 120)
                \<and> lookup res ''avg_reps'' = Some (PNum 4)
                \<and> lookup res ''sets_count'' = Some (PNum 2))"
      by (rule conjI)
  qed
  from A B show ?thesis by (rule conjI)
qed


lemma sample_summary:
  "fst (get_session_summary sample_self ''2026-01-05'' sample_heap) =
     PDict [(''date'', PStr ''2026-01-05''), (''exercise'', PStr ''Squat''),
            (''total_volume'', PNum 860), (''sets_count'', PNum 2),
            (''max_weight'', PNum 120), (''avg_reps'', PNum 4),
            (''duration_minutes'', PNum 45)]"
  by (simp add: get_session_summary_def sample_workouts_ref sample_cells squat_session_def
      bench_session_def rest_session_def max_default_def)

theorem get_session_summary_spec_witness:
  "reachable sample_self sample_heap
   \<and> cells sample_heap (workouts sample_self) = [bench_session] @ squat_session # [rest_session]
   \<and> ''2026-01-05'' \<notin> date ` set [bench_session]
   \<and> date squat_session = ''2026-01-05''
   \<and> map (\<lambda>t. (reps t, weight t)) (sets squat_session) = [(5, 100), (3, 120)]
   \<and> fst (get_session_summary sample_self ''2026-01-05'' sample_heap) =
       PDict [(''date'', PStr ''2026-01-05''), (''exercise'', PStr ''Squat''),
              (''total_volume'', PNum 860), (''sets_count'', PNum 2),
              (''max_weight'', PNum 120), (''avg_reps'', PNum 4),
              (''duration_minutes'', PNum 45)]
   \<and> lookup (fst (get_session_summary sample_self ''2026-01-05'' sample_heap)) ''total_volume''
       = Some (PNum 860)
   \<and> lookup (fst (get_session_summary sample_self ''2026-01-05'' sample_heap)) ''avg_reps''
       = Some (PNum 4)
   \<and> ''2026-03-01'' \<notin> date ` set (cells sample_heap (workouts sample_self))
   \<and> fst (get_session_summary sample_self ''2026-03-01'' sample_heap) =
       PDict [(''error'', PStr ''No workout found on 2026-03-01'')]"
proof -
  have c: "cells sample_heap (workouts sample_self) = [bench_session] @ squat_session # [rest_session]"
    by (simp add: sample_workouts_ref sample_cells)
  have n: "''2026-01-05'' \<notin> date ` set [bench_session]"
    and d: "date squat_session = ''2026-01-05''"
    and m: "map (\<lambda>t. (reps t, weight t)) (sets squat_session) = [(5, 100), (3, 120)]"
    by (simp_all add: bench_session_def squat_session_def)
  have a: "''2026-03-01'' \<notin> date ` set (cells sample_heap (workouts sample_self))"
    by (simp add: sample_workouts_ref sample_cells squat_session_def bench_session_def
        rest_session_def)
  have p: "cells sample_heap (workouts sample_self) = [bench_session] @ squat_session # [rest_session]
      \<and> ''2026-01-05'' \<notin> date ` set [bench_session] \<and> date squat_session = ''2026-01-05''"
    using c n d by (intro conjI)
  note t1 = get_session_summary_spec[where h = sample_heap and self = sample_self
      and d = "''2026-01-05''", OF refl refl, THEN conjunct2, rule_format, OF p]
  note q = t1[THEN conjunct2, THEN mp, OF conjI[OF sample_reachable m]]
  note t2 = get_session_summary_spec[where h = sample_heap and self = sample_self
      and d = "''2026-03-01''", OF refl refl, THEN conjunct1, THEN mp, OF a]
  from q t2 c n d m a sample_reachable
  show ?thesis
    by (simp add: sample_summary)
qed

subsection \<open>Recent workouts\<close>

lemma get_recent_workouts_result:
  "fst (get_recent_workouts self days h) =
     map asdict (slice_to (rev (sort_key date (rev (cells h (workouts self))))) days)"
  by (simp add: get_recent_workouts_def sorted_by_date_reverse_def new_list_def Let_def)





subsection \<open>Report\<close>

lemma generate_report_empty:
  "cells h (workouts self) = [] \<Longrightarrow>
     generate_report self h = (PDict [(''error'', PStr ''No workout data available'')], h)"
  by (simp add: generate_report_def)

lemma generate_report_nonempty:
  assumes "cells h (workouts self) = w0 # rest"
  shows "fst (generate_report self h) =
    PDict
      [(''total_sessions'', PNum (of_nat (length (cells h (workouts self))))),
       (''exercises_tracked'',
          PList (map (\<lambda>kv. PStr (fst kv)) (fst (get_personal_records self None h)))),
       (''personal_records'',
          PDict (map (\<lambda>kv. (fst kv, PNum (snd kv))) (fst (get_personal_records self None h)))),
       (''total_volume_by_exercise'',
          PDict (map (\<lambda>kv. (fst kv, PNum (snd kv))) (fst (get_volume_by_exercise self h)))),
       (''total_volume_overall'',
          PNum (foldl (+) 0 (map snd (fst (get_volume_by_exercise self h))))),
       (''date_range'',
          PDict [(''start'', PStr (foldl min (date w0) (map date rest))),
                 (''end'', PStr (foldl max (date w0) (map date rest)))]),
       (''recent_workouts'', PList (fst (get_recent_workouts self 5 h)))]"
  by (simp add: generate_report_def assms Let_def split_beta get_personal_records_store
      get_volume_by_exercise_store)

lemma foldl_plus_sum_list: "foldl (+) (a::real) xs = a + sum_list xs"
  by (induction xs arbitrary: a) simp_all

text \<open>
  Claim C9. On an empty collection \<^verbatim>\<open>generate_report\<close> returns the dict with the one key
  \<^verbatim>\<open>"error"\<close> and leaves the store as it was: no list is built, nothing else is computed. On
  a collection that is not empty the report has no key \<^verbatim>\<open>"error"\<close>; its overall total is the
  sum of the totals of \<^verbatim>\<open>get_volume_by_exercise\<close>, its date range goes from the least to the
  greatest date of all the sessions in lexicographic order, and its recent workouts are
  those of \<^verbatim>\<open>get_recent_workouts(5)\<close>: the first 5 sessions by descending date.
\<close>

theorem generate_report_spec:
  assumes "ws = cells h (workouts self)"
    and "res = fst (generate_report self h)"
  shows "(ws = [] \<longrightarrow>
            generate_report self h = (PDict [(''error'', PStr ''No workout data available'')], h)
            \<and> lookup res ''error'' = Some (PStr ''No workout data available''))
    \<and> (ws \<noteq> [] \<longrightarrow>
            lookup res ''error'' = None
            \<and> lookup res ''total_sessions'' = Some (PNum (of_nat (length ws)))
            \<and> lookup res ''total_volume_by_exercise'' =
                Some (PDict (map (\<lambda>kv. (fst kv, PNum (snd kv)))
                               (fst (get_volume_by_exercise self h))))
            \<and> lookup res ''total_volume_overall'' =
                Some (PNum (\<Sum>kv\<leftarrow>fst (get_volume_by_exercise self h). snd kv))
            \<and> lookup res ''date_range'' =
                Some (PDict [(''start'', PStr (Min (date ` set ws))),
                             (''end'', PStr (Max (date ` set ws)))])
            \<and> lookup res ''recent_workouts'' = Some (PList (fst (get_recent_workouts self 5 h)))
            \<and> fst (get_recent_workouts self 5 h) =
                map asdict (take 5 (rev (sort_key date (rev ws)))))"
    (is "?A \<and> ?B")
proof -
  have A: ?A
  proof
    assume "ws = []"
    then have "generate_report self h = (PDict [(''error'', PStr ''No workout data available'')], h)"
      unfolding assms by (rule generate_report_empty)
    then show "generate_report self h = (PDict [(''error'', PStr ''No workout data available'')], h)
            \<and> lookup res ''error'' = Some (PStr ''No workout data available'')"
      unfolding assms by simp
  qed
  have B: ?B
  proof
    assume "ws \<noteq> []"
    then obtain w0 rest where c: "cells h (workouts self) = w0 # rest"
      unfolding assms by (cases "cells h (workouts self)") auto
    have mn: "foldl min (date w0) (map date rest) = Min (date ` set ws)"
      unfolding assms c by (simp add: foldl_min_Min del: foldl_Cons)
    have mx: "foldl max (date w0) (map date rest) = Max (date ` set ws)"
      unfolding assms c by (simp add: foldl_max_Max del: foldl_Cons)
    have rw: "fst (get_recent_workouts self 5 h) = map asdict (take 5 (rev (sort_key date (rev ws))))"
      using get_recent_workouts_result[of self "int 5" h]
      unfolding assms by (simp add: slice_to_def)
    have len: "length (cells h (workouts self)) = length ws" unfolding assms by simp
    have r: "res = PDict
      [(''total_sessions'', PNum (of_nat (length ws))),
       (''exercises_tracked'',
          PList (map (\<lambda>kv. PStr (fst kv)) (fst (get_personal_records self None h)))),
       (''personal_records'',
          PDict (map (\<lambda>kv. (fst kv, PNum (snd kv))) (fst (get_personal_records self None h)))),
       (''total_volume_by_exercise'',
          PDict (map (\<lambda>kv. (fst kv, PNum (snd kv))) (fst (get_volume_by_exercise self h)))),
       (''total_volume_overall'',
          PNum (\<Sum>kv\<leftarrow>fst (get_volume_by_exercise self h). snd kv)),
       (''date_range'',
          PDict [(''start'', PStr (Min (date ` set ws))),
                 (''end'', PStr (Max (date ` set ws)))]),
       (''recent_workouts'', PList (fst (get_recent_workouts self 5 h)))]"
      unfolding assms(2) generate_report_nonempty[OF c] mn mx len
      by (simp add: foldl_plus_sum_list)
    show "lookup res ''error'' = None
            \<and> lookup res ''total_sessions'' = Some (PNum (of_nat (length ws)))
            \<and> lookup res ''total_volume_by_exercise'' =
                Some (PDict (map (\<lambda>kv. (fst kv, PNum (snd kv)))
                               (fst (get_volume_by_exercise self h))))
            \<and> lookup res ''total_volume_overall'' =
                Some (PNum (\<Sum>kv\<leftarrow>fst (get_volume_by_exercise self h). snd kv))
            \<and> lookup res ''date_range'' =
                Some (PDict [(''start'', PStr (Min (date ` set ws))),
                             (''end'', PStr (Max (date ` set ws)))])
            \<and> lookup res ''recent_workouts'' = Some (PList (fst (get_recent_workouts self 5 h)))
            \<and> fst (get_recent_workouts self 5 h) =
                map asdict (take 5 (rev (sort_key date (rev ws))))"
      unfolding r using rw by simp
  qed
  from A B show ?thesis by (rule conjI)
qed

lemma sample_volumes:
  "fst (get_volume_by_exercise sample_self sample_heap) = [(''Bench'', 480), (''Squat'', 860)]"
  by (simp add: get_volume_by_exercise_def sample_workouts_ref sample_cells squat_session_def
      bench_session_def rest_session_def dict_get_def)

lemma sample_date_range:
  "Min (date ` set (cells sample_heap (workouts sample_self))) = ''2026-01-01''"
  "Max (date ` set (cells sample_heap (workouts sample_self))) = ''2026-01-05''"
  by (simp_all add: sample_workouts_ref sample_cells squat_session_def bench_session_def
      rest_session_def)

lemma fresh_analyzer:
  "init None sample_files empty_heap =
     (Inr \<lparr>workouts = 0, data_file = None\<rparr>, \<lparr>cells = (\<lambda>r. []), fresh = 1\<rparr>)"
  by (simp add: init_def new_list_def empty_heap_def fun_upd_idem_iff)

theorem generate_report_spec_witness:
  "cells sample_heap (workouts sample_self) \<noteq> []
   \<and> fst (get_volume_by_exercise sample_self sample_heap) = [(''Bench'', 480), (''Squat'', 860)]
   \<and> lookup (fst (generate_report sample_self sample_heap)) ''total_volume_overall''
       = Some (PNum 1340)
   \<and> lookup (fst (generate_report sample_self sample_heap)) ''date_range''
       = Some (PDict [(''start'', PStr ''2026-01-01''), (''end'', PStr ''2026-01-05'')])
   \<and> lookup (fst (generate_report sample_self sample_heap)) ''recent_workouts''
       = Some (PList [asdict squat_session, asdict rest_session, asdict bench_session])
   \<and> lookup (fst (generate_report sample_self sample_heap)) ''error'' = None
   \<and> init None sample_files empty_heap =
       (Inr \<lparr>workouts = 0, data_file = None\<rparr>, \<lparr>cells = (\<lambda>r. []), fresh = 1\<rparr>)
   \<and> generate_report \<lparr>workouts = 0, data_file = None\<rparr> \<lparr>cells = (\<lambda>r. []), fresh = 1\<rparr>
       = (PDict [(''error'', PStr ''No workout data available'')],
          \<lparr>cells = (\<lambda>r. []), fresh = 1\<rparr>)"
proof -
  have ne: "cells sample_heap (workouts sample_self) \<noteq> []"
    by (simp add: sample_workouts_ref sample_cells)
  have s: "rev (sort_key date (rev (cells sample_heap (workouts sample_self))))
      = [squat_session, rest_session, bench_session]"
    by (simp add: sample_workouts_ref sample_cells)
      (simp add: squat_session_def bench_session_def rest_session_def)
  have e: "cells \<lparr>cells = (\<lambda>r. []), fresh = 1\<rparr> (workouts \<lparr>workouts = 0, data_file = None\<rparr>) = []"
    by simp
  note t1 = generate_report_spec[where h = sample_heap and self = sample_self, OF refl refl,
      THEN conjunct2, THEN mp, OF ne]
  note t2 = generate_report_spec[where h = "\<lparr>cells = (\<lambda>r. []), fresh = 1\<rparr>"
      and self = "\<lparr>workouts = 0, data_file = None\<rparr>", OF refl refl,
      THEN conjunct1, THEN mp, OF e, THEN conjunct1]
  from t1 t2 ne show ?thesis
    by (simp add: sample_volumes sample_date_range s fresh_analyzer)
qed

end
